theory Spec2Isabelle
  imports Main
begin

section \<open>Data model\<close>

text \<open>
  The script keeps its state in an SQLite file with two tables,
  \<^verbatim>\<open>LISTINGS (URL TEXT PRIMARY KEY, FLAG BOOLEAN NOT NULL,
  INSERT_TIMESTAMP TEXT NOT NULL, UPDATE_TIMESTAMP TEXT NOT NULL)\<close> and
  \<^verbatim>\<open>LISTINGS_STAGING (URL TEXT)\<close>.

  A value of a \<^verbatim>\<open>URL\<close> column is a string or SQL NULL: the links come from
  \<^verbatim>\<open>div.find('a').get('href')\<close>, which is \<^verbatim>\<open>None\<close> for an anchor without
  \<^verbatim>\<open>href\<close>, the staging column has no constraint, and SQLite admits NULL in a
  \<^verbatim>\<open>TEXT PRIMARY KEY\<close> column of an ordinary table. So a URL value is a
  \<open>string option\<close>, with \<open>None\<close> for NULL (Python's \<^verbatim>\<open>None\<close>).
  A table is the list of its rows in insertion order. A table that does not exist yet is
  the empty list: every run starts with \<^verbatim>\<open>CREATE TABLE IF NOT EXISTS\<close>.
  The value of \<^verbatim>\<open>DATETIME()\<close> is a parameter of the statement that calls it.
  Faults of the storage itself (a full disk, a locked file) are not modelled.
\<close>

type_synonym url = "string option"

type_synonym timestamp = string

record listing =
  URL :: url
  FLAG :: bool
  INSERT_TIMESTAMP :: timestamp
  UPDATE_TIMESTAMP :: timestamp

text \<open>
  The world of one run: the two tables as committed, and the e-mails that
  \<^verbatim>\<open>server.sendmail\<close> has delivered so far.
\<close>

record world =
  LISTINGS :: "listing list"
  LISTINGS_STAGING :: "url list"
  outbox :: "string list"

text \<open>
  Every function of the script wraps its body in \<^verbatim>\<open>try\<close> and calls
  \<^verbatim>\<open>exit()\<close> in the handler. A call either returns a value or ends the process;
  in both cases the world it leaves behind is part of the outcome.
\<close>

datatype error =
  RequestException | AttributeError | IntegrityError | TypeError | SMTPException

datatype 'a outcome = Returned 'a world | Exited error world

fun final :: "'a outcome \<Rightarrow> world" where
  "final (Returned v w) = w"
| "final (Exited e w) = w"

section \<open>get_listings\<close>

text \<open>
  \<^verbatim>\<open>os.getenv\<close> is a partial map. A Python dict literal evaluates its entries left
  to right; an entry whose key is already present replaces the value and keeps the place.
\<close>

type_synonym environ = "string \<Rightarrow> string option"

fun dict_set :: "('k \<times> 'v) list \<Rightarrow> 'k \<Rightarrow> 'v \<Rightarrow> ('k \<times> 'v) list" where
  "dict_set [] k v = [(k, v)]"
| "dict_set ((k', v') # d) k v =
     (if k' = k then (k, v) # d else (k', v') # dict_set d k v)"

definition url_scraper :: string where
  "url_scraper = ''https://api.scraperapi.com/''"

definition payload :: "environ \<Rightarrow> (string \<times> string option) list" where
  "payload getenv =
     (let api_key = getenv ''scraper_api_key'';
          url = getenv ''funda_url'';
          country_code = ''eu'';
          device_type = ''desktop''
      in dict_set (dict_set (dict_set (dict_set []
           ''api_key'' api_key)
           ''url'' url)
           ''country_code'' (Some country_code))
           device_type (Some device_type))"

text \<open>
  The proxy and the HTML parser are the environment: \<open>http\<close> maps the request (endpoint
  and \<^verbatim>\<open>params\<close>) to a failure or to the \<^verbatim>\<open>div\<close>s of class
  \<^verbatim>\<open>flex justify-between\<close> in document order. Of a \<^verbatim>\<open>div\<close> the script reads
  only its first anchor (\<open>None\<close> when it has none) and that anchor's \<^verbatim>\<open>href\<close>
  (\<open>None\<close> when the attribute is missing).
\<close>

type_synonym div_tag = "string option option"

type_synonym http = "string \<Rightarrow> (string \<times> string option) list \<Rightarrow> error + div_tag list"

fun collect_links :: "div_tag list \<Rightarrow> url list \<Rightarrow> error + url list" where
  "collect_links [] links = Inr links"
| "collect_links (d # divs) links =
     (case d of
        None \<Rightarrow> Inl AttributeError
      | Some a \<Rightarrow> collect_links divs (links @ [a]))"

definition get_listings :: "environ \<Rightarrow> http \<Rightarrow> world \<Rightarrow> url list outcome" where
  "get_listings getenv requests_get w =
     (case requests_get url_scraper (payload getenv) of
        Inl e \<Rightarrow> Exited e w
      | Inr divs \<Rightarrow>
          (case collect_links divs [] of
             Inl e \<Rightarrow> Exited e w
           | Inr links \<Rightarrow> Returned links w))"

section \<open>The store\<close>

definition connect_to_sql :: "world \<Rightarrow> unit outcome" where
  "connect_to_sql w = Returned () w"

fun stage_links :: "url list \<Rightarrow> url list \<Rightarrow> url list" where
  "stage_links tbl [] = tbl"
| "stage_links tbl (link # links) = stage_links (tbl @ [link]) links"

definition insert_records_staging :: "world \<Rightarrow> url list \<Rightarrow> unit outcome" where
  "insert_records_staging w links =
     Returned () (w\<lparr>LISTINGS_STAGING := stage_links (LISTINGS_STAGING w) links\<rparr>)"

text \<open>
  \<^verbatim>\<open>x NOT IN (SELECT ...)\<close> in SQL's three-valued logic (\<open>None\<close> is unknown):
  true on an empty right-hand side whatever \<open>x\<close> is; unknown when \<open>x\<close> is NULL;
  false when \<open>x\<close> is found; unknown when \<open>x\<close> is not found and the right-hand side
  holds a NULL; true otherwise. A \<^verbatim>\<open>WHERE\<close> clause keeps the rows on which it is true.
\<close>

definition sql_not_in :: "url \<Rightarrow> url list \<Rightarrow> bool option" where
  "sql_not_in x ys =
     (if ys = [] then Some True
      else if x = None then None
      else if x \<in> set ys then Some False
      else if None \<in> set ys then None
      else Some True)"

text \<open>
  The primary key: a row conflicts with the table when its URL is not NULL and a row of
  the table has the same URL (NULLs are distinct from each other). The rows of an
  \<^verbatim>\<open>INSERT ... SELECT\<close> are inserted one after the other, and the first conflict
  fails the statement and backs out the rows it had inserted.
\<close>

definition primary_key_conflict :: "listing list \<Rightarrow> listing \<Rightarrow> bool" where
  "primary_key_conflict tbl r \<longleftrightarrow> URL r \<noteq> None \<and> URL r \<in> set (map URL tbl)"

fun insert_rows :: "listing list \<Rightarrow> listing list \<Rightarrow> error + listing list" where
  "insert_rows tbl [] = Inr tbl"
| "insert_rows tbl (r # rs) =
     (if primary_key_conflict tbl r then Inl IntegrityError
      else insert_rows (tbl @ [r]) rs)"

definition new_listing :: "timestamp \<Rightarrow> url \<Rightarrow> listing" where
  "new_listing now u =
     \<lparr>URL = u, FLAG = False, INSERT_TIMESTAMP = now, UPDATE_TIMESTAMP = now\<rparr>"

definition select_new :: "world \<Rightarrow> url list" where
  "select_new w =
     filter (\<lambda>u. sql_not_in u (map URL (LISTINGS w)) = Some True) (LISTINGS_STAGING w)"

definition insert_records_target :: "timestamp \<Rightarrow> world \<Rightarrow> unit outcome" where
  "insert_records_target now w =
     (case insert_rows (LISTINGS w) (map (new_listing now) (select_new w)) of
        Inl e \<Rightarrow> Exited e w
      | Inr tbl \<Rightarrow>
          (let w1 = w\<lparr>LISTINGS := tbl\<rparr>
           in Returned () (w1\<lparr>LISTINGS_STAGING := []\<rparr>)))"

definition get_new_listings :: "world \<Rightarrow> url list outcome" where
  "get_new_listings w =
     Returned (map URL (filter (\<lambda>r. FLAG r = False) (LISTINGS w))) w"

section \<open>mail_new_listings\<close>

text \<open>
  \<^verbatim>\<open>"\n\n".join(new_listings)\<close> raises \<^verbatim>\<open>TypeError\<close> on an element that is
  not a string. An f-string prints \<^verbatim>\<open>None\<close> as the text \<^verbatim>\<open>None\<close>.
\<close>

definition newline :: string where
  "newline = [CHR 0x0A]"

fun join :: "string \<Rightarrow> url list \<Rightarrow> error + string" where
  "join sep [] = Inr []"
| "join sep [x] = (case x of None \<Rightarrow> Inl TypeError | Some s \<Rightarrow> Inr s)"
| "join sep (x # y # ys) =
     (case x of
        None \<Rightarrow> Inl TypeError
      | Some s \<Rightarrow>
          (case join sep (y # ys) of
             Inl e \<Rightarrow> Inl e
           | Inr rest \<Rightarrow> Inr (s @ sep @ rest)))"

definition format_value :: "string option \<Rightarrow> string" where
  "format_value v = (case v of None \<Rightarrow> ''None'' | Some s \<Rightarrow> s)"

definition message :: "environ \<Rightarrow> string \<Rightarrow> string" where
  "message getenv body =
     (let from_email = getenv ''from_email_address'';
          to_email = getenv ''to_email_address'';
          subject = ''New Funda Listings''
      in ''From: '' @ format_value from_email @ newline @
         ''To: '' @ format_value to_email @ newline @
         ''Subject: '' @ subject @ newline @ newline @ body)"

text \<open>
  The SMTP relay is the environment: \<open>smtp c\<close> says whether the call \<open>c\<close> returns
  (\<open>True\<close>) or raises.
\<close>

datatype smtp_call = Connect | Starttls | Login | Sendmail | Quit

definition flag_unflagged :: "timestamp \<Rightarrow> listing \<Rightarrow> listing" where
  "flag_unflagged now r =
     (if FLAG r = False then r\<lparr>FLAG := True, UPDATE_TIMESTAMP := now\<rparr> else r)"

definition mail_new_listings ::
  "environ \<Rightarrow> (smtp_call \<Rightarrow> bool) \<Rightarrow> timestamp \<Rightarrow> url list \<Rightarrow> world \<Rightarrow> unit outcome" where
  "mail_new_listings getenv smtp now new_listings w =
     (case join (newline @ newline) new_listings of
        Inl e \<Rightarrow> Exited e w
      | Inr body \<Rightarrow>
          if \<not> smtp Connect then Exited SMTPException w
          else if \<not> smtp Starttls then Exited SMTPException w
          else if \<not> smtp Login then Exited SMTPException w
          else if \<not> smtp Sendmail then Exited SMTPException w
          else
            (let w1 = w\<lparr>outbox := outbox w @ [message getenv body]\<rparr>
             in if \<not> smtp Quit then Exited SMTPException w1
                else Returned ()
                  (w1\<lparr>LISTINGS := map (flag_unflagged now) (LISTINGS w1)\<rparr>)))"

section \<open>main\<close>

text \<open>
  \<open>t_merge\<close> and \<open>t_flag\<close> are the values of \<^verbatim>\<open>DATETIME()\<close> in the
  \<^verbatim>\<open>INSERT\<close> and in the \<^verbatim>\<open>UPDATE\<close> of this run.
\<close>

definition main ::
  "environ \<Rightarrow> http \<Rightarrow> (smtp_call \<Rightarrow> bool) \<Rightarrow> timestamp \<Rightarrow> timestamp \<Rightarrow> world \<Rightarrow> unit outcome" where
  "main getenv requests_get smtp t_merge t_flag w =
     (case get_listings getenv requests_get w of
        Exited e w' \<Rightarrow> Exited e w'
      | Returned links w0 \<Rightarrow>
     (case connect_to_sql w0 of
        Exited e w' \<Rightarrow> Exited e w'
      | Returned _ w1 \<Rightarrow>
     (case insert_records_staging w1 links of
        Exited e w' \<Rightarrow> Exited e w'
      | Returned _ w2 \<Rightarrow>
     (case insert_records_target t_merge w2 of
        Exited e w' \<Rightarrow> Exited e w'
      | Returned _ w3 \<Rightarrow>
     (case get_new_listings w3 of
        Exited e w' \<Rightarrow> Exited e w'
      | Returned new_listings w4 \<Rightarrow>
          if length new_listings > 0
          then mail_new_listings getenv smtp t_flag new_listings w4
          else Returned () w4)))))"

section \<open>The lifecycle of a listing\<close>

text \<open>
  A later world preserves the lifecycle of an earlier one when every row of the earlier
  \<^verbatim>\<open>LISTINGS\<close> is still there, at its place and under its URL, and no flag that
  was set has been cleared.
\<close>

definition lifecycle_preserved :: "world \<Rightarrow> world \<Rightarrow> bool" where
  "lifecycle_preserved w w' \<longleftrightarrow>
     length (LISTINGS w) \<le> length (LISTINGS w') \<and>
     list_all2 (\<lambda>r r'. URL r' = URL r \<and> (FLAG r \<longrightarrow> FLAG r'))
       (LISTINGS w) (take (length (LISTINGS w)) (LISTINGS w'))"

section \<open>Example worlds\<close>

text \<open>
  \<open>A\<close> is a listing that has been notified, \<open>B\<close> one that has not, and
  \<open>listing_NULL\<close> is the row that an anchor without \<^verbatim>\<open>href\<close> leaves behind. The
  environment \<open>no_environ\<close> has no variable set.
\<close>

abbreviation listing_A :: listing where
  "listing_A \<equiv>
     \<lparr>URL = Some ''A'', FLAG = True, INSERT_TIMESTAMP = ''t0'', UPDATE_TIMESTAMP = ''t1''\<rparr>"

abbreviation listing_B :: listing where
  "listing_B \<equiv>
     \<lparr>URL = Some ''B'', FLAG = False, INSERT_TIMESTAMP = ''t2'', UPDATE_TIMESTAMP = ''t2''\<rparr>"

abbreviation listing_NULL :: listing where
  "listing_NULL \<equiv>
     \<lparr>URL = None, FLAG = False, INSERT_TIMESTAMP = ''t3'', UPDATE_TIMESTAMP = ''t3''\<rparr>"

abbreviation world_of :: "listing list \<Rightarrow> url list \<Rightarrow> world" where
  "world_of rows staged \<equiv> \<lparr>LISTINGS = rows, LISTINGS_STAGING = staged, outbox = []\<rparr>"

abbreviation no_environ :: environ where
  "no_environ \<equiv> (\<lambda>k. None)"

section \<open>Facts about the store\<close>

lemma stage_links_append: "stage_links tbl links = tbl @ links"
  by (induction links arbitrary: tbl) simp_all

lemma insert_rows_eq:
  "insert_rows tbl rs =
     (if distinct (filter (\<lambda>u. u \<noteq> None) (map URL rs)) \<and>
         (\<forall>r \<in> set rs. URL r \<noteq> None \<longrightarrow> URL r \<notin> set (map URL tbl))
      then Inr (tbl @ rs) else Inl IntegrityError)"
proof (induction rs arbitrary: tbl)
  case Nil
  show ?case by simp
next
  case (Cons r rs)
  show ?case
  proof (cases "primary_key_conflict tbl r")
    case True
    then show ?thesis
      by (auto simp: primary_key_conflict_def)
  next
    case False
    then have "insert_rows tbl (r # rs) = insert_rows (tbl @ [r]) rs"
      by simp
    also have "\<dots> =
      (if distinct (filter (\<lambda>u. u \<noteq> None) (map URL rs)) \<and>
          (\<forall>x \<in> set rs. URL x \<noteq> None \<longrightarrow> URL x \<notin> set (map URL (tbl @ [r])))
       then Inr ((tbl @ [r]) @ rs) else Inl IntegrityError)"
      by (rule Cons.IH)
    also have "\<dots> =
      (if distinct (filter (\<lambda>u. u \<noteq> None) (map URL (r # rs))) \<and>
          (\<forall>x \<in> set (r # rs). URL x \<noteq> None \<longrightarrow> URL x \<notin> set (map URL tbl))
       then Inr (tbl @ r # rs) else Inl IntegrityError)"
      using False by (auto simp: primary_key_conflict_def image_iff)
    finally show ?thesis .
  qed
qed

lemma sql_not_in_True:
  "sql_not_in x ys = Some True \<longleftrightarrow> ys = [] \<or> (x \<noteq> None \<and> x \<notin> set ys \<and> None \<notin> set ys)"
  by (simp add: sql_not_in_def)

lemma select_new_fresh:
  "u \<in> set (select_new w) \<Longrightarrow> u \<noteq> None \<Longrightarrow> u \<notin> set (map URL (LISTINGS w))"
  by (auto simp: select_new_def sql_not_in_True)

lemma URL_new_listing: "map URL (map (new_listing now) us) = us"
  by (induction us) (simp_all add: new_listing_def)

lemma URL_new_listing_comp: "map (URL \<circ> new_listing now) us = us"
  by (induction us) (simp_all add: new_listing_def)

text \<open>
  The merge as one equation: it returns exactly when the selected URLs that are not NULL
  are pairwise different, and then it has appended one fresh row per selected URL and
  emptied the staging table. Otherwise the process exits and the world is as before.
\<close>

lemma insert_records_target_eq:
  "insert_records_target now w =
     (if distinct (filter (\<lambda>u. u \<noteq> None) (select_new w))
      then Returned () (w\<lparr>LISTINGS := LISTINGS w @ map (new_listing now) (select_new w),
                           LISTINGS_STAGING := []\<rparr>)
      else Exited IntegrityError w)"
proof -
  have "\<forall>r \<in> set (map (new_listing now) (select_new w)).
          URL r \<noteq> None \<longrightarrow> URL r \<notin> set (map URL (LISTINGS w))"
    using select_new_fresh [of _ w] by (auto simp: new_listing_def)
  then show ?thesis
    unfolding insert_records_target_def insert_rows_eq URL_new_listing
    by (simp add: Let_def)
qed

lemma select_new_no_null:
  assumes "None \<notin> set (LISTINGS_STAGING w)" "None \<notin> set (map URL (LISTINGS w))"
  shows "select_new w = filter (\<lambda>u. u \<notin> set (map URL (LISTINGS w))) (LISTINGS_STAGING w)"
  unfolding select_new_def
  using assms by (intro filter_cong) (auto simp: sql_not_in_True)

lemma select_new_not_key:
  "k \<in> set (map URL (LISTINGS w)) \<Longrightarrow> k \<notin> set (select_new w)"
  by (auto simp: select_new_def sql_not_in_True)

lemma distinct_select_new:
  assumes "None \<notin> set (LISTINGS_STAGING w)" "None \<notin> set (map URL (LISTINGS w))"
    "distinct (filter (\<lambda>u. u \<notin> set (map URL (LISTINGS w))) (LISTINGS_STAGING w))"
  shows "distinct (filter (\<lambda>u. u \<noteq> None) (select_new w))"
  unfolding select_new_no_null [OF assms(1,2)] using assms(3) by (rule distinct_filter)

lemma set_select_new:
  assumes "None \<notin> set (LISTINGS_STAGING w)" "None \<notin> set (map URL (LISTINGS w))"
  shows "set (select_new w) = set (LISTINGS_STAGING w) - set (map URL (LISTINGS w))"
  using assms by (auto simp: select_new_no_null)

lemma filter_no_null: "None \<notin> set us \<Longrightarrow> filter (\<lambda>u. u \<noteq> None) us = us"
  by (rule filter_True) metis

lemma count_list_filter:
  "P x \<Longrightarrow> count_list (filter P xs) x = count_list xs x"
  by (induction xs) auto

lemma count_list_distinct: "distinct xs \<Longrightarrow> count_list xs x \<le> 1"
  by (induction xs) (auto simp: count_list_0_iff)

lemma select_new_after_merge:
  assumes "distinct (filter (\<lambda>u. u \<noteq> None) (select_new w))"
  shows "select_new (w\<lparr>LISTINGS := LISTINGS w @ map (new_listing now) (select_new w),
                        LISTINGS_STAGING := LISTINGS_STAGING w\<rparr>) = []"
proof -
  let ?keys = "map URL (LISTINGS w)"
  let ?keys' = "?keys @ select_new w"
  have "sql_not_in u ?keys' \<noteq> Some True" if u: "u \<in> set (LISTINGS_STAGING w)" for u
  proof
    assume "sql_not_in u ?keys' = Some True"
    then consider "?keys' = []" | "u \<noteq> None" "u \<notin> set ?keys'" "None \<notin> set ?keys'"
      by (auto simp: sql_not_in_True)
    then show False
    proof cases
      case 1
      then have "sql_not_in u ?keys = Some True" "select_new w = []"
        by (simp_all add: sql_not_in_True)
      with u show False
        by (auto simp: select_new_def filter_empty_conv)
    next
      case 2
      then have "sql_not_in u ?keys = Some True"
        by (simp add: sql_not_in_True)
      with u have "u \<in> set (select_new w)"
        by (simp add: select_new_def)
      with 2 show False by simp
    qed
  qed
  then show ?thesis
    by (simp add: select_new_def filter_empty_conv URL_new_listing_comp)
qed

lemmas merge_eval =
  insert_records_target_def select_new_def sql_not_in_def primary_key_conflict_def
  new_listing_def insert_records_staging_def

text \<open>
  The data model of the specification gives a listing a string for its URL. The tables
  of the code can hold more: an anchor without \<^verbatim>\<open>href\<close> on an empty database
  stores a row whose URL is NULL (and the run then ends in \<^verbatim>\<open>join\<close>), and from
  then on \<^verbatim>\<open>NOT IN\<close> is never true, so no merge selects anything. The theorems
  below that speak of URLs as keys therefore say where they need tables without NULL.
\<close>

lemma null_href_is_stored:
  "main no_environ (\<lambda>u p. Inr [Some None]) smtp ''t3'' ''t4'' (world_of [] []) =
     Exited TypeError (world_of
       [\<lparr>URL = None, FLAG = False, INSERT_TIMESTAMP = ''t3'', UPDATE_TIMESTAMP = ''t3''\<rparr>] [])"
  by (simp add: main_def get_listings_def connect_to_sql_def get_new_listings_def
      mail_new_listings_def merge_eval)

lemma null_key_selects_nothing:
  "None \<in> set (map URL (LISTINGS w)) \<Longrightarrow> select_new w = []"
  by (auto simp: select_new_def sql_not_in_True filter_empty_conv)

section \<open>Facts about notification and the run\<close>

lemma join_eq:
  "join sep xs = Inl TypeError \<or> (None \<notin> set xs \<and> (\<exists>body. join sep xs = Inr body))"
  by (induction sep xs rule: join.induct) (auto split: option.splits sum.splits)

lemma join_None: "None \<in> set xs \<Longrightarrow> join sep xs = Inl TypeError"
  using join_eq [of sep xs] by auto

lemma mail_new_listings_Returned:
  "mail_new_listings getenv smtp now new_listings w = Returned u w' \<Longrightarrow>
     LISTINGS w' = map (flag_unflagged now) (LISTINGS w)"
  by (auto simp: mail_new_listings_def Let_def split: sum.splits if_splits)

lemma mail_new_listings_Exited:
  "mail_new_listings getenv smtp now new_listings w = Exited e w' \<Longrightarrow>
     LISTINGS w' = LISTINGS w"
  by (auto simp: mail_new_listings_def Let_def split: sum.splits if_splits)

lemma get_listings_world:
  "get_listings getenv requests_get w = Returned links w' \<Longrightarrow> w' = w"
  "get_listings getenv requests_get w = Exited e w' \<Longrightarrow> w' = w"
  by (auto simp: get_listings_def split: sum.splits)

section \<open>Facts about the lifecycle\<close>

lemma lifecycle_preserved_nth:
  "lifecycle_preserved w w' \<longleftrightarrow>
     length (LISTINGS w) \<le> length (LISTINGS w') \<and>
     (\<forall>i < length (LISTINGS w).
        URL (LISTINGS w' ! i) = URL (LISTINGS w ! i) \<and>
        (FLAG (LISTINGS w ! i) \<longrightarrow> FLAG (LISTINGS w' ! i)))"
  by (auto simp: lifecycle_preserved_def list_all2_conv_all_nth)

lemma lifecycle_preserved_refl: "LISTINGS w' = LISTINGS w \<Longrightarrow> lifecycle_preserved w w'"
  by (simp add: lifecycle_preserved_nth)

lemma lifecycle_preserved_trans:
  "lifecycle_preserved a b \<Longrightarrow> lifecycle_preserved b c \<Longrightarrow> lifecycle_preserved a c"
  by (fastforce simp: lifecycle_preserved_nth)

lemma lifecycle_preserved_append:
  "LISTINGS w' = LISTINGS w @ new \<Longrightarrow> lifecycle_preserved w w'"
  by (simp add: lifecycle_preserved_nth nth_append)

lemma lifecycle_preserved_flag:
  "LISTINGS w' = map (flag_unflagged now) (LISTINGS w) \<Longrightarrow> lifecycle_preserved w w'"
  by (simp add: lifecycle_preserved_nth flag_unflagged_def)

lemma staging_lifecycle: "lifecycle_preserved w (final (insert_records_staging w links))"
  by (simp add: insert_records_staging_def lifecycle_preserved_refl)

lemma target_lifecycle: "lifecycle_preserved w (final (insert_records_target now w))"
  by (simp add: insert_records_target_eq lifecycle_preserved_refl lifecycle_preserved_append)

lemma query_lifecycle: "lifecycle_preserved w (final (get_new_listings w))"
  by (simp add: get_new_listings_def lifecycle_preserved_refl)

lemma mail_lifecycle:
  "lifecycle_preserved w (final (mail_new_listings getenv smtp now new_listings w))"
proof (cases "mail_new_listings getenv smtp now new_listings w")
  case (Returned u w')
  then show ?thesis
    using lifecycle_preserved_flag [OF mail_new_listings_Returned [OF Returned]] by simp
next
  case (Exited e w')
  then show ?thesis
    using lifecycle_preserved_refl [OF mail_new_listings_Exited [OF Exited]] by simp
qed

lemma main_lifecycle:
  "lifecycle_preserved w (final (main getenv requests_get smtp t_merge t_flag w))"
proof (cases "get_listings getenv requests_get w")
  case (Exited e w')
  then show ?thesis
    using get_listings_world(2) [OF Exited]
    by (simp add: main_def lifecycle_preserved_refl)
next
  case (Returned links w0)
  define w2 where "w2 = final (insert_records_staging w links)"
  have w2: "insert_records_staging w links = Returned () w2"
    by (simp add: w2_def insert_records_staging_def)
  have s: "lifecycle_preserved w w2"
    unfolding w2_def by (rule staging_lifecycle)
  have m: "lifecycle_preserved w (final (insert_records_target t_merge w2))"
    using s target_lifecycle by (rule lifecycle_preserved_trans)
  have pre: "main getenv requests_get smtp t_merge t_flag w =
      (case insert_records_target t_merge w2 of
         Exited e w' \<Rightarrow> Exited e w'
       | Returned _ w3 \<Rightarrow>
           (case get_new_listings w3 of
              Exited e w' \<Rightarrow> Exited e w'
            | Returned new_listings w4 \<Rightarrow>
                if length new_listings > 0
                then mail_new_listings getenv smtp t_flag new_listings w4
                else Returned () w4))"
    using Returned get_listings_world(1) [OF Returned] w2
    by (simp add: main_def connect_to_sql_def)
  show ?thesis
  proof (cases "insert_records_target t_merge w2")
    case (Exited e w')
    with m show ?thesis by (simp add: pre)
  next
    case (Returned u w3)
    with m have m3: "lifecycle_preserved w w3" by simp
    have "lifecycle_preserved w (final (mail_new_listings getenv smtp t_flag nl w3))" for nl
      using m3 mail_lifecycle by (rule lifecycle_preserved_trans)
    with m3 show ?thesis
      by (simp add: pre Returned get_new_listings_def)
  qed
qed

section \<open>The request of the fetcher\<close>

text \<open>
  Claim C4: the GET of \<^verbatim>\<open>get_listings\<close> carries exactly the query parameters
  named \<^verbatim>\<open>api_key\<close>, \<^verbatim>\<open>url\<close>, \<^verbatim>\<open>country_code\<close> and
  \<^verbatim>\<open>device_type\<close>.
  The code does not do that. The last entry of the dict literal is written
  \<^verbatim>\<open>device_type: device_type\<close>, with the variable as key where the three entries
  before it have a string literal, so the key is the variable's value: whatever the
  environment, the parameters are named \<^verbatim>\<open>api_key\<close>, \<^verbatim>\<open>url\<close>,
  \<^verbatim>\<open>country_code\<close> and \<^verbatim>\<open>desktop\<close>, and none is named
  \<^verbatim>\<open>device_type\<close>.
\<close>

theorem C4_payload_keys:
  "map fst (payload getenv) = [''api_key'', ''url'', ''country_code'', ''desktop''] \<and>
   ''device_type'' \<notin> set (map fst (payload getenv))"
  by (simp add: payload_def Let_def)

section \<open>Merge\<close>

text \<open>
  Claim C1: for every staged batch and every persisted \<^verbatim>\<open>LISTINGS\<close>, the merge
  inserts exactly the staged URLs that are not yet keys, each with the flag false and
  both timestamps the current time, and leaves the staging table empty.
  As stated the claim fails: a batch that holds a new URL twice makes the
  \<^verbatim>\<open>INSERT\<close> violate the primary key, and the process exits with nothing
  inserted and the staging table as it was.
\<close>

theorem C1_duplicate_batch_counterexample:
  "Some ''A'' \<in> set (LISTINGS_STAGING (world_of [] [Some ''A'', Some ''A''])) \<and>
   Some ''A'' \<notin> set (map URL (LISTINGS (world_of [] [Some ''A'', Some ''A'']))) \<and>
   insert_records_target ''t3'' (world_of [] [Some ''A'', Some ''A'']) =
     Exited IntegrityError (world_of [] [Some ''A'', Some ''A''])"
  by (simp add: merge_eval)

text \<open>
  Claim C1, amended: for tables whose URLs are strings (no NULL), if no URL that is
  absent from \<^verbatim>\<open>LISTINGS\<close> is staged more than once, the merge returns, having
  appended to \<^verbatim>\<open>LISTINGS\<close> exactly one row for each staged URL that was not a
  key, each with the flag false and both timestamps the current time; the rows that
  were there are as before, and the staging table is empty.
\<close>

theorem C1_merge_inserts_new:
  assumes "None \<notin> set (LISTINGS_STAGING w)" and "None \<notin> set (map URL (LISTINGS w))"
    and "distinct (filter (\<lambda>u. u \<notin> set (map URL (LISTINGS w))) (LISTINGS_STAGING w))"
  shows "\<exists>new. insert_records_target now w =
             Returned () (w\<lparr>LISTINGS := LISTINGS w @ new, LISTINGS_STAGING := []\<rparr>) \<and>
           set (map URL new) = set (LISTINGS_STAGING w) - set (map URL (LISTINGS w)) \<and>
           distinct (map URL new) \<and>
           (\<forall>r \<in> set new. FLAG r = False \<and> INSERT_TIMESTAMP r = now \<and> UPDATE_TIMESTAMP r = now)"
proof (intro exI conjI)
  show "insert_records_target now w =
          Returned () (w\<lparr>LISTINGS := LISTINGS w @ map (new_listing now) (select_new w),
                          LISTINGS_STAGING := []\<rparr>)"
    using distinct_select_new [OF assms] by (simp add: insert_records_target_eq)
  show "set (map URL (map (new_listing now) (select_new w))) =
          set (LISTINGS_STAGING w) - set (map URL (LISTINGS w))"
    unfolding URL_new_listing using assms(1,2) by (rule set_select_new)
  show "distinct (map URL (map (new_listing now) (select_new w)))"
    unfolding URL_new_listing using assms by (simp add: select_new_no_null)
  show "\<forall>r \<in> set (map (new_listing now) (select_new w)).
          FLAG r = False \<and> INSERT_TIMESTAMP r = now \<and> UPDATE_TIMESTAMP r = now"
    by (auto simp: new_listing_def)
qed

text \<open>
  The example of the specification: the batch \<open>[A, B]\<close> on an empty table.
\<close>

theorem C1_example_scenario_witness:
  "None \<notin> set (LISTINGS_STAGING (world_of [] [Some ''A'', Some ''B''])) \<and>
   None \<notin> set (map URL (LISTINGS (world_of [] [Some ''A'', Some ''B'']))) \<and>
   distinct (filter (\<lambda>u. u \<notin> set (map URL (LISTINGS (world_of [] [Some ''A'', Some ''B'']))))
     (LISTINGS_STAGING (world_of [] [Some ''A'', Some ''B'']))) \<and>
   insert_records_target ''t3'' (world_of [] [Some ''A'', Some ''B'']) =
     Returned () (world_of
       [\<lparr>URL = Some ''A'', FLAG = False, INSERT_TIMESTAMP = ''t3'', UPDATE_TIMESTAMP = ''t3''\<rparr>,
        \<lparr>URL = Some ''B'', FLAG = False, INSERT_TIMESTAMP = ''t3'', UPDATE_TIMESTAMP = ''t3''\<rparr>] [])"
  using C1_merge_inserts_new [of "world_of [] [Some ''A'', Some ''B'']" "''t3''"]
  by (simp add: merge_eval)

text \<open>
  Claim C8: for every row of \<^verbatim>\<open>LISTINGS\<close> whose URL is also staged, the merge
  leaves the flag and both timestamps of that row unchanged (no update on conflict).
  Whether the merge returns or exits, the rows under that URL afterwards are the rows
  under it before: the row is kept as it is and none is added beside it.
\<close>

theorem C8_existing_rows_untouched:
  assumes "r \<in> set (LISTINGS w)" and "URL r \<in> set (LISTINGS_STAGING w)"
  shows "filter (\<lambda>x. URL x = URL r) (LISTINGS (final (insert_records_target now w))) =
         filter (\<lambda>x. URL x = URL r) (LISTINGS w)"
proof -
  have "URL r \<in> set (map URL (LISTINGS w))"
    using assms(1) by simp
  then have "URL r \<notin> set (select_new w)"
    by (rule select_new_not_key)
  then have "filter (\<lambda>x. URL x = URL r) (map (new_listing now) (select_new w)) = []"
    by (auto simp: filter_empty_conv new_listing_def)
  then show ?thesis
    by (simp add: insert_records_target_eq)
qed

text \<open>
  The partial-new scenario of the specification: \<open>A\<close> is there and notified, the
  batch is \<open>[A, C]\<close>.
\<close>

theorem C8_partial_new_witness:
  "listing_A \<in> set (LISTINGS (world_of [listing_A] [Some ''A'', Some ''C''])) \<and>
   URL listing_A \<in> set (LISTINGS_STAGING (world_of [listing_A] [Some ''A'', Some ''C''])) \<and>
   filter (\<lambda>x. URL x = URL listing_A)
     (LISTINGS (final (insert_records_target ''t3'' (world_of [listing_A] [Some ''A'', Some ''C''])))) =
   [listing_A]"
  using C8_existing_rows_untouched
    [of listing_A "world_of [listing_A] [Some ''A'', Some ''C'']" "''t3''"]
  by simp

text \<open>
  Claim C3: the merge is idempotent over the keys. When a merge has returned, staging
  the same batch again and merging again returns the very same world: the repeat
  inserts nothing. For tables whose URLs are strings, the first merge makes
  \<^verbatim>\<open>LISTINGS\<close> longer by the number of different staged URLs that were not keys,
  and keys that were pairwise different stay so: each URL is inserted at most once.
\<close>

theorem C3_merge_idempotent:
  assumes "insert_records_target t1 w = Returned () w1"
  shows "(\<exists>w2. insert_records_staging w1 (LISTINGS_STAGING w) = Returned () w2 \<and>
               LISTINGS_STAGING w2 = LISTINGS_STAGING w \<and>
               insert_records_target t2 w2 = Returned () w1) \<and>
         (None \<notin> set (LISTINGS_STAGING w) \<and> None \<notin> set (map URL (LISTINGS w)) \<longrightarrow>
            length (LISTINGS w1) =
              length (LISTINGS w) + card (set (LISTINGS_STAGING w) - set (map URL (LISTINGS w))) \<and>
            (distinct (map URL (LISTINGS w)) \<longrightarrow> distinct (map URL (LISTINGS w1))))"
proof -
  let ?sel = "select_new w"
  have d: "distinct (filter (\<lambda>u. u \<noteq> None) ?sel)"
    and w1: "w1 = w\<lparr>LISTINGS := LISTINGS w @ map (new_listing t1) ?sel, LISTINGS_STAGING := []\<rparr>"
    using assms by (auto simp: insert_records_target_eq split: if_splits)
  define w2 where "w2 = w1\<lparr>LISTINGS_STAGING := LISTINGS_STAGING w\<rparr>"
  have w2: "w2 = w\<lparr>LISTINGS := LISTINGS w @ map (new_listing t1) ?sel,
                    LISTINGS_STAGING := LISTINGS_STAGING w\<rparr>"
    by (simp add: w2_def w1)
  have "select_new w2 = []"
    unfolding w2 using d by (rule select_new_after_merge)
  then have "insert_records_target t2 w2 = Returned () w1"
    by (simp add: insert_records_target_eq) (simp add: w2_def w1)
  moreover have "insert_records_staging w1 (LISTINGS_STAGING w) = Returned () w2"
    by (simp add: insert_records_staging_def stage_links_append w2_def w1)
  moreover have "LISTINGS_STAGING w2 = LISTINGS_STAGING w"
    by (simp add: w2_def)
  moreover have "length (LISTINGS w1) =
      length (LISTINGS w) + card (set (LISTINGS_STAGING w) - set (map URL (LISTINGS w)))"
    if n: "None \<notin> set (LISTINGS_STAGING w)" "None \<notin> set (map URL (LISTINGS w))"
  proof -
    have "None \<notin> set ?sel"
      using n(1) by (auto simp: select_new_def)
    then have "filter (\<lambda>u. u \<noteq> None) ?sel = ?sel"
      by (rule filter_no_null)
    with d have "distinct ?sel"
      by metis
    then have "length ?sel = card (set ?sel)"
      by (simp add: distinct_card)
    then show ?thesis
      by (simp add: w1 set_select_new [OF n])
  qed
  moreover have "distinct (map URL (LISTINGS w1))"
    if n: "None \<notin> set (LISTINGS_STAGING w)" "None \<notin> set (map URL (LISTINGS w))"
      and k: "distinct (map URL (LISTINGS w))"
  proof -
    have "None \<notin> set ?sel"
      using n(1) by (auto simp: select_new_def)
    then have "filter (\<lambda>u. u \<noteq> None) ?sel = ?sel"
      by (rule filter_no_null)
    with d have "distinct ?sel"
      by metis
    moreover have "set (map URL (LISTINGS w)) \<inter> set ?sel = {}"
      using select_new_not_key [of _ w] by auto
    ultimately show ?thesis
      using k by (simp add: w1 URL_new_listing_comp del: set_map)
  qed
  ultimately show ?thesis by blast
qed

text \<open>
  The re-run scenario: \<open>A\<close> is there, the batch \<open>[A, B]\<close> is merged twice.
\<close>

theorem C3_rerun_witness:
  "insert_records_target ''t3'' (world_of [listing_A] [Some ''A'', Some ''B'']) =
     Returned () (world_of [listing_A,
       \<lparr>URL = Some ''B'', FLAG = False, INSERT_TIMESTAMP = ''t3'', UPDATE_TIMESTAMP = ''t3''\<rparr>] []) \<and>
   insert_records_target ''t4'' (world_of [listing_A,
       \<lparr>URL = Some ''B'', FLAG = False, INSERT_TIMESTAMP = ''t3'', UPDATE_TIMESTAMP = ''t3''\<rparr>]
       [Some ''A'', Some ''B'']) =
     Returned () (world_of [listing_A,
       \<lparr>URL = Some ''B'', FLAG = False, INSERT_TIMESTAMP = ''t3'', UPDATE_TIMESTAMP = ''t3''\<rparr>] []) \<and>
   card (set (LISTINGS_STAGING (world_of [listing_A] [Some ''A'', Some ''B''])) -
         set (map URL (LISTINGS (world_of [listing_A] [Some ''A'', Some ''B''])))) = 1"
proof -
  have h: "insert_records_target ''t3'' (world_of [listing_A] [Some ''A'', Some ''B'']) =
     Returned () (world_of [listing_A,
       \<lparr>URL = Some ''B'', FLAG = False, INSERT_TIMESTAMP = ''t3'', UPDATE_TIMESTAMP = ''t3''\<rparr>] [])"
    by (simp add: merge_eval)
  show ?thesis
    using h C3_merge_idempotent [OF h, of "''t4''"]
    by (simp add: insert_records_staging_def)
qed

text \<open>
  Claim C9: when the staged batch holds the same URL twice and that URL is not yet
  present in \<^verbatim>\<open>LISTINGS\<close>, the \<^verbatim>\<open>INSERT ... SELECT\<close> violates the primary
  key, the statement fails and the process exits through the error branch.
  As stated the claim fails: when \<^verbatim>\<open>LISTINGS\<close> holds a row whose URL is NULL,
  \<^verbatim>\<open>NOT IN\<close> is true of no staged row, so nothing is selected, no key is violated,
  and the merge returns with nothing inserted and the staging table emptied.
\<close>

theorem C9_null_key_counterexample:
  "2 \<le> count_list (LISTINGS_STAGING (world_of [listing_NULL] [Some ''B'', Some ''B''])) (Some ''B'') \<and>
   Some ''B'' \<notin> set (map URL (LISTINGS (world_of [listing_NULL] [Some ''B'', Some ''B'']))) \<and>
   insert_records_target ''t4'' (world_of [listing_NULL] [Some ''B'', Some ''B'']) =
     Returned () (world_of [listing_NULL] [])"
  by (simp add: merge_eval)

text \<open>
  Claim C9, amended: staging does not deduplicate, and when the staging table holds the
  same URL twice, that URL is not yet a key of \<^verbatim>\<open>LISTINGS\<close> and no key of
  \<^verbatim>\<open>LISTINGS\<close> is NULL, the merge does not insert it once: the
  \<^verbatim>\<open>INSERT ... SELECT\<close> violates the primary key and the process exits through
  the error branch, the world unchanged.
\<close>

theorem C9_duplicate_new_url_aborts:
  assumes "2 \<le> count_list (LISTINGS_STAGING w @ links) (Some u)"
    and "Some u \<notin> set (map URL (LISTINGS w))"
    and "None \<notin> set (map URL (LISTINGS w))"
  shows "\<exists>w2. insert_records_staging w links = Returned () w2 \<and>
           LISTINGS_STAGING w2 = LISTINGS_STAGING w @ links \<and>
           insert_records_target now w2 = Exited IntegrityError w2"
proof -
  define w2 where "w2 = w\<lparr>LISTINGS_STAGING := LISTINGS_STAGING w @ links\<rparr>"
  have sel: "sql_not_in (Some u) (map URL (LISTINGS w2)) = Some True"
    using assms(2,3) by (simp add: sql_not_in_True w2_def)
  have "count_list (filter (\<lambda>x. x \<noteq> None) (select_new w2)) (Some u) =
        count_list (LISTINGS_STAGING w2) (Some u)"
    unfolding select_new_def using sel by (simp add: count_list_filter)
  then have "2 \<le> count_list (filter (\<lambda>x. x \<noteq> None) (select_new w2)) (Some u)"
    using assms(1) by (simp add: w2_def)
  then have "\<not> distinct (filter (\<lambda>x. x \<noteq> None) (select_new w2))"
    using count_list_distinct [of "filter (\<lambda>x. x \<noteq> None) (select_new w2)" "Some u"] by auto
  then have "insert_records_target now w2 = Exited IntegrityError w2"
    by (simp add: insert_records_target_eq)
  then show ?thesis
    by (simp add: insert_records_staging_def stage_links_append w2_def)
qed

text \<open>
  A leftover \<open>B\<close> in the staging table and \<open>B\<close> again among the new links.
\<close>

theorem C9_duplicate_witness:
  "2 \<le> count_list (LISTINGS_STAGING (world_of [listing_A] [Some ''B'']) @ [Some ''B'']) (Some ''B'') \<and>
   Some ''B'' \<notin> set (map URL (LISTINGS (world_of [listing_A] [Some ''B'']))) \<and>
   None \<notin> set (map URL (LISTINGS (world_of [listing_A] [Some ''B'']))) \<and>
   insert_records_staging (world_of [listing_A] [Some ''B'']) [Some ''B''] =
     Returned () (world_of [listing_A] [Some ''B'', Some ''B'']) \<and>
   insert_records_target ''t3'' (world_of [listing_A] [Some ''B'', Some ''B'']) =
     Exited IntegrityError (world_of [listing_A] [Some ''B'', Some ''B''])"
  using C9_duplicate_new_url_aborts [of "world_of [listing_A] [Some ''B'']" "[Some ''B'']" "''B''" "''t3''"]
  by (simp add: insert_records_staging_def)

text \<open>
  Claim C10: nothing clears the staging table at the start of a run and staging only
  appends, so the rows that an aborted run left there remain and go into the merge of
  the next run together with the new links. For every world and every list of links:
  \<^verbatim>\<open>connect_to_sql\<close> leaves the world as it is; \<^verbatim>\<open>insert_records_staging\<close>
  returns with the leftover rows still there, followed by the new links; the merge then
  either exits, and the staging table still holds the leftover rows and the new links, or
  returns, and the rows it has inserted are those of the leftover rows and the new
  links alike on which the \<^verbatim>\<open>WHERE\<close> clause is true. So every leftover URL is
  afterwards still staged or a key of \<^verbatim>\<open>LISTINGS\<close>, unless a key of
  \<^verbatim>\<open>LISTINGS\<close> is NULL (the clause is then true of no row, leftover or new).
\<close>

theorem C10_leftover_staging_merged:
  "connect_to_sql w = Returned () w \<and>
   insert_records_staging w links =
     Returned () (w\<lparr>LISTINGS_STAGING := LISTINGS_STAGING w @ links\<rparr>) \<and>
   (insert_records_target now (w\<lparr>LISTINGS_STAGING := LISTINGS_STAGING w @ links\<rparr>) =
      Exited IntegrityError (w\<lparr>LISTINGS_STAGING := LISTINGS_STAGING w @ links\<rparr>) \<or>
    insert_records_target now (w\<lparr>LISTINGS_STAGING := LISTINGS_STAGING w @ links\<rparr>) =
      Returned ()
        (w\<lparr>LISTINGS := LISTINGS w @ map (new_listing now)
             (filter (\<lambda>x. sql_not_in x (map URL (LISTINGS w)) = Some True)
                (LISTINGS_STAGING w @ links)),
           LISTINGS_STAGING := []\<rparr>)) \<and>
   (\<forall>u. Some u \<in> set (LISTINGS_STAGING w) \<longrightarrow> None \<notin> set (map URL (LISTINGS w)) \<longrightarrow>
      Some u \<in> set (LISTINGS_STAGING (final (insert_records_target now
         (w\<lparr>LISTINGS_STAGING := LISTINGS_STAGING w @ links\<rparr>)))) \<or>
      Some u \<in> set (map URL (LISTINGS (final (insert_records_target now
         (w\<lparr>LISTINGS_STAGING := LISTINGS_STAGING w @ links\<rparr>))))))"
proof -
  define w2 where "w2 = w\<lparr>LISTINGS_STAGING := LISTINGS_STAGING w @ links\<rparr>"
  have sel: "select_new w2 =
      filter (\<lambda>x. sql_not_in x (map URL (LISTINGS w)) = Some True) (LISTINGS_STAGING w @ links)"
    by (simp add: select_new_def w2_def)
  have c: "connect_to_sql w = Returned () w"
    by (simp add: connect_to_sql_def)
  have s: "insert_records_staging w links = Returned () w2"
    by (simp add: insert_records_staging_def stage_links_append w2_def)
  have m: "insert_records_target now w2 = Exited IntegrityError w2 \<or>
      insert_records_target now w2 =
        Returned ()
          (w\<lparr>LISTINGS := LISTINGS w @ map (new_listing now)
               (filter (\<lambda>x. sql_not_in x (map URL (LISTINGS w)) = Some True)
                  (LISTINGS_STAGING w @ links)),
             LISTINGS_STAGING := []\<rparr>)"
    unfolding insert_records_target_eq sel by (simp add: w2_def)
  have k: "Some u \<in> set (LISTINGS_STAGING (final (insert_records_target now w2))) \<or>
      Some u \<in> set (map URL (LISTINGS (final (insert_records_target now w2))))"
    if l: "Some u \<in> set (LISTINGS_STAGING w)" and n: "None \<notin> set (map URL (LISTINGS w))" for u
  proof (cases "distinct (filter (\<lambda>x. x \<noteq> None) (select_new w2))")
    case False
    then have "final (insert_records_target now w2) = w2"
      by (simp add: insert_records_target_eq)
    with l show ?thesis by (simp add: w2_def)
  next
    case True
    then have f: "LISTINGS (final (insert_records_target now w2)) =
        LISTINGS w @ map (new_listing now) (select_new w2)"
      by (simp add: insert_records_target_eq w2_def)
    show ?thesis
    proof (cases "Some u \<in> set (map URL (LISTINGS w))")
      case True
      then show ?thesis by (simp add: f)
    next
      case False
      then have "sql_not_in (Some u) (map URL (LISTINGS w)) = Some True"
        using n by (simp add: sql_not_in_True)
      then have "Some u \<in> set (select_new w2)"
        using l by (simp add: sel)
      then show ?thesis
        by (simp add: f URL_new_listing_comp del: set_map)
    qed
  qed
  show ?thesis
    using c s m k unfolding w2_def by blast
qed

text \<open>
  A leftover \<open>L\<close> from an earlier run: with a new link \<open>N\<close> the merge returns
  and \<open>L\<close> is a key; with \<open>L\<close> still on the page the merge exits and
  \<open>L\<close> stays staged.
\<close>

theorem C10_leftover_witness:
  "insert_records_staging (world_of [listing_A] [Some ''L'']) [Some ''N''] =
     Returned () (world_of [listing_A] [Some ''L'', Some ''N'']) \<and>
   insert_records_target ''t3'' (world_of [listing_A] [Some ''L'', Some ''N'']) =
     Returned () (world_of [listing_A,
       \<lparr>URL = Some ''L'', FLAG = False, INSERT_TIMESTAMP = ''t3'', UPDATE_TIMESTAMP = ''t3''\<rparr>,
       \<lparr>URL = Some ''N'', FLAG = False, INSERT_TIMESTAMP = ''t3'', UPDATE_TIMESTAMP = ''t3''\<rparr>] []) \<and>
   insert_records_staging (world_of [listing_A] [Some ''L'']) [Some ''L''] =
     Returned () (world_of [listing_A] [Some ''L'', Some ''L'']) \<and>
   insert_records_target ''t3'' (world_of [listing_A] [Some ''L'', Some ''L'']) =
     Exited IntegrityError (world_of [listing_A] [Some ''L'', Some ''L'']) \<and>
   Some ''L'' \<in> set (LISTINGS_STAGING (world_of [listing_A] [Some ''L''])) \<and>
   None \<notin> set (map URL (LISTINGS (world_of [listing_A] [Some ''L'']))) \<and>
   Some ''L'' \<in> set (map URL (LISTINGS (final (insert_records_target ''t3''
      (world_of [listing_A] [Some ''L'', Some ''N''])))))  \<and>
   Some ''L'' \<in> set (LISTINGS_STAGING (final (insert_records_target ''t3''
      (world_of [listing_A] [Some ''L'', Some ''L'']))))"
  using C10_leftover_staging_merged [of "world_of [listing_A] [Some ''L'']" "[Some ''N'']" "''t3''"]
    C10_leftover_staging_merged [of "world_of [listing_A] [Some ''L'']" "[Some ''L'']" "''t3''"]
  by (simp add: merge_eval)

section \<open>Notification\<close>

text \<open>
  Claim C2: if \<^verbatim>\<open>mail_new_listings\<close> succeeds, every row whose flag was false
  has the flag true and the current time as \<^verbatim>\<open>UPDATE_TIMESTAMP\<close> afterwards and
  is otherwise as before, and the rows whose flag was true are unchanged. No row is
  added or removed.
\<close>

theorem C2_notify_flags_unnotified:
  assumes "mail_new_listings getenv smtp now new_listings w = Returned () w'"
  shows "length (LISTINGS w') = length (LISTINGS w) \<and>
         (\<forall>i < length (LISTINGS w).
            (\<not> FLAG (LISTINGS w ! i) \<longrightarrow>
               LISTINGS w' ! i = (LISTINGS w ! i)\<lparr>FLAG := True, UPDATE_TIMESTAMP := now\<rparr>) \<and>
            (FLAG (LISTINGS w ! i) \<longrightarrow> LISTINGS w' ! i = LISTINGS w ! i))"
proof -
  have "LISTINGS w' = map (flag_unflagged now) (LISTINGS w)"
    using assms by (rule mail_new_listings_Returned)
  then show ?thesis
    by (simp add: flag_unflagged_def)
qed

text \<open>
  \<open>A\<close> notified, \<open>B\<close> not, and a relay on which every call returns.
\<close>

theorem C2_notify_witness:
  "mail_new_listings no_environ (\<lambda>c. True) ''t3'' [Some ''B''] (world_of [listing_A, listing_B] []) =
     Returned () (final (mail_new_listings no_environ (\<lambda>c. True) ''t3'' [Some ''B'']
       (world_of [listing_A, listing_B] []))) \<and>
   LISTINGS (final (mail_new_listings no_environ (\<lambda>c. True) ''t3'' [Some ''B'']
       (world_of [listing_A, listing_B] []))) =
     [listing_A,
      \<lparr>URL = Some ''B'', FLAG = True, INSERT_TIMESTAMP = ''t2'', UPDATE_TIMESTAMP = ''t3''\<rparr>]"
proof -
  have h: "mail_new_listings no_environ (\<lambda>c. True) ''t3'' [Some ''B''] (world_of [listing_A, listing_B] []) =
     Returned () (final (mail_new_listings no_environ (\<lambda>c. True) ''t3'' [Some ''B'']
       (world_of [listing_A, listing_B] [])))"
    by (simp add: mail_new_listings_def Let_def)
  show ?thesis
    using h C2_notify_flags_unnotified [OF h]
    by (simp add: mail_new_listings_def Let_def flag_unflagged_def)
qed

text \<open>
  Claim C5: if the send fails, by any exception before \<^verbatim>\<open>sendmail\<close> returns,
  the update of the flags is not executed. The exceptions of the model are the
  \<^verbatim>\<open>TypeError\<close> of \<^verbatim>\<open>join\<close> and a failure of the connection, of
  \<^verbatim>\<open>starttls\<close>, of \<^verbatim>\<open>login\<close> or of \<^verbatim>\<open>sendmail\<close>; in each case
  the process exits and the world is the one before the call, so every row keeps its
  flag and the listings that were not notified are still not notified.
\<close>

theorem C5_failed_send_keeps_flags:
  assumes "None \<in> set new_listings \<or> \<not> smtp Connect \<or> \<not> smtp Starttls \<or>
           \<not> smtp Login \<or> \<not> smtp Sendmail"
  shows "\<exists>e. mail_new_listings getenv smtp now new_listings w = Exited e w"
proof (cases "None \<in> set new_listings")
  case True
  then show ?thesis
    by (simp add: mail_new_listings_def join_None)
next
  case False
  with assms show ?thesis
    by (auto simp: mail_new_listings_def split: sum.splits)
qed

text \<open>
  A relay on which \<^verbatim>\<open>sendmail\<close> raises.
\<close>

theorem C5_sendmail_fails_witness:
  "\<not> (\<lambda>c. c \<noteq> Sendmail) Sendmail \<and>
   mail_new_listings no_environ (\<lambda>c. c \<noteq> Sendmail) ''t3'' [Some ''B''] (world_of [listing_A, listing_B] []) =
     Exited SMTPException (world_of [listing_A, listing_B] [])"
  using C5_failed_send_keeps_flags
    [of "[Some ''B'']" "\<lambda>c. c \<noteq> Sendmail" no_environ "''t3''" "world_of [listing_A, listing_B] []"]
  by (simp add: mail_new_listings_def)

text \<open>
  Claim C7: if \<^verbatim>\<open>get_new_listings\<close> returns the empty list, the run sends no
  e-mail and changes no flag: \<^verbatim>\<open>main\<close> returns the world as it is after the
  merge, whatever the relay would do.
\<close>

theorem C7_no_new_listings_no_mail:
  assumes "get_listings getenv requests_get w = Returned links w0"
    and "connect_to_sql w0 = Returned () w1"
    and "insert_records_staging w1 links = Returned () w2"
    and "insert_records_target t_merge w2 = Returned () w3"
    and "get_new_listings w3 = Returned [] w4"
  shows "main getenv requests_get smtp t_merge t_flag w = Returned () w3"
proof -
  have "w4 = w3"
    using assms(5) by (simp add: get_new_listings_def)
  with assms show ?thesis
    by (simp add: main_def)
qed

text \<open>
  The re-run scenario, with a relay on which every call would raise.
\<close>

theorem C7_rerun_witness:
  "get_listings no_environ (\<lambda>u p. Inr [Some (Some ''A'')]) (world_of [listing_A] []) =
     Returned [Some ''A''] (world_of [listing_A] []) \<and>
   connect_to_sql (world_of [listing_A] []) = Returned () (world_of [listing_A] []) \<and>
   insert_records_staging (world_of [listing_A] []) [Some ''A''] =
     Returned () (world_of [listing_A] [Some ''A'']) \<and>
   insert_records_target ''t3'' (world_of [listing_A] [Some ''A'']) =
     Returned () (world_of [listing_A] []) \<and>
   get_new_listings (world_of [listing_A] []) = Returned [] (world_of [listing_A] []) \<and>
   main no_environ (\<lambda>u p. Inr [Some (Some ''A'')]) (\<lambda>c. False) ''t3'' ''t4'' (world_of [listing_A] []) =
     Returned () (world_of [listing_A] [])"
proof -
  have g: "get_listings no_environ (\<lambda>u p. Inr [Some (Some ''A'')]) (world_of [listing_A] []) =
     Returned [Some ''A''] (world_of [listing_A] [])"
    by (simp add: get_listings_def)
  have c: "connect_to_sql (world_of [listing_A] []) = Returned () (world_of [listing_A] [])"
    by (simp add: connect_to_sql_def)
  have s: "insert_records_staging (world_of [listing_A] []) [Some ''A''] =
     Returned () (world_of [listing_A] [Some ''A''])"
    by (simp add: insert_records_staging_def)
  have m: "insert_records_target ''t3'' (world_of [listing_A] [Some ''A'']) =
     Returned () (world_of [listing_A] [])"
    by (simp add: merge_eval)
  have q: "get_new_listings (world_of [listing_A] []) = Returned [] (world_of [listing_A] [])"
    by (simp add: get_new_listings_def)
  show ?thesis
    using g c s m q C7_no_new_listings_no_mail [OF g c s m q, of "\<lambda>c. False" "''t4''"]
    by blast
qed

section \<open>Lifecycle invariants\<close>

text \<open>
  Claim C6: every operation of a run (stage, merge, the query for unnotified listings,
  notify) and the run as a whole preserve the lifecycle, whether the operation returns
  or the process exits in it: no row of \<^verbatim>\<open>LISTINGS\<close> is deleted or changes its
  URL, and no flag goes from true back to false.
\<close>

theorem C6_lifecycle_invariants:
  "lifecycle_preserved w (final (insert_records_staging w links)) \<and>
   lifecycle_preserved w (final (insert_records_target now w)) \<and>
   lifecycle_preserved w (final (get_new_listings w)) \<and>
   lifecycle_preserved w (final (mail_new_listings getenv smtp now new_listings w)) \<and>
   lifecycle_preserved w (final (main getenv requests_get smtp t_merge t_flag w))"
  by (intro conjI staging_lifecycle target_lifecycle query_lifecycle mail_lifecycle main_lifecycle)

text \<open>
  \<open>A\<close> notified, \<open>B\<close> not, \<open>C\<close> staged, and a page with the link \<open>D\<close>.
\<close>

theorem C6_lifecycle_witness:
  "FLAG (LISTINGS (world_of [listing_A, listing_B] [Some ''C'']) ! 0) \<and>
   lifecycle_preserved (world_of [listing_A, listing_B] [Some ''C''])
     (final (insert_records_staging (world_of [listing_A, listing_B] [Some ''C'']) [Some ''D''])) \<and>
   lifecycle_preserved (world_of [listing_A, listing_B] [Some ''C''])
     (final (insert_records_target ''t3'' (world_of [listing_A, listing_B] [Some ''C'']))) \<and>
   lifecycle_preserved (world_of [listing_A, listing_B] [Some ''C''])
     (final (get_new_listings (world_of [listing_A, listing_B] [Some ''C'']))) \<and>
   lifecycle_preserved (world_of [listing_A, listing_B] [Some ''C''])
     (final (mail_new_listings no_environ (\<lambda>c. True) ''t3'' [Some ''B'']
        (world_of [listing_A, listing_B] [Some ''C'']))) \<and>
   lifecycle_preserved (world_of [listing_A, listing_B] [Some ''C''])
     (final (main no_environ (\<lambda>u p. Inr [Some (Some ''D'')]) (\<lambda>c. True) ''t3'' ''t4''
        (world_of [listing_A, listing_B] [Some ''C''])))"
  using C6_lifecycle_invariants
    [of "world_of [listing_A, listing_B] [Some ''C'']" "[Some ''D'']" "''t3''"
        no_environ "\<lambda>c. True" "[Some ''B'']" "\<lambda>u p. Inr [Some (Some ''D'')]" "''t3''" "''t4''"]
  by simp

end
